theory Spec2Isabelle
  imports Main
begin

section \<open>Processes, errors and the trace of subprocess calls\<close>

text \<open>
  The two modules \<^verbatim>\<open>ci/ray_ci/container.py\<close> and \<^verbatim>\<open>ci/ray_ci/docker.py\<close> talk to the
  outside only through \<^verbatim>\<open>subprocess.check_call\<close>, \<^verbatim>\<open>subprocess.check_output\<close>,
  \<^verbatim>\<open>subprocess.Popen\<close> and \<^verbatim>\<open>Popen.wait\<close>. The model threads the list of these calls
  (oldest first) through every function. A call is named by its position in that list,
  and the \<^verbatim>\<open>Popen\<close> object returned by a call is identified with that position.

  What the child processes do is not decided by the program: it is a parameter, the
  \<open>world\<close>. Every exception of the source is a value \<open>Inl e\<close>.
  A Python \<^verbatim>\<open>str\<close> is represented by its UTF-8 encoding, so \<^verbatim>\<open>str\<close> and \<^verbatim>\<open>bytes\<close>
  are both \<open>string\<close>. \<^verbatim>\<open>Popen.wait()\<close> is taken to return: a child that never exits
  is outside this model.
\<close>

datatype error =
    ConfigError
  | OSError
  | CalledProcessError int
  | UnicodeDecodeError

type_synonym argv = "string list"

datatype event =
    CheckCall argv "(string \<times> string) list"
  | CheckOutput argv
  | Popen argv
  | Wait nat

record world =
  starts :: "nat \<Rightarrow> bool"
  exit_code :: "nat \<Rightarrow> int"
  stdout :: "nat \<Rightarrow> string"

type_synonym 'a io = "event list \<Rightarrow> (error + 'a) \<times> event list"

fun is_Popen :: "event \<Rightarrow> bool" where
  "is_Popen (Popen a) = True"
| "is_Popen e = False"

fun is_Wait :: "event \<Rightarrow> bool" where
  "is_Wait (Wait h) = True"
| "is_Wait e = False"

text \<open>
  \<^verbatim>\<open>subprocess.check_call(argv, env=env)\<close>: runs the child to completion; raises
  \<^verbatim>\<open>OSError\<close> when the child cannot be created and \<^verbatim>\<open>CalledProcessError\<close> when it
  exits non-zero.
\<close>

definition check_call :: "world \<Rightarrow> argv \<Rightarrow> (string \<times> string) list \<Rightarrow> unit io" where
  "check_call w args env tr =
     (let k = length tr; tr' = tr @ [CheckCall args env] in
      if \<not> starts w k then (Inl OSError, tr')
      else if exit_code w k \<noteq> 0 then (Inl (CalledProcessError (exit_code w k)), tr')
      else (Inr (), tr'))"

text \<open>\<^verbatim>\<open>subprocess.check_output(argv)\<close>: as \<^verbatim>\<open>check_call\<close>, returning the captured stdout.\<close>

definition check_output :: "world \<Rightarrow> argv \<Rightarrow> string io" where
  "check_output w args tr =
     (let k = length tr; tr' = tr @ [CheckOutput args] in
      if \<not> starts w k then (Inl OSError, tr')
      else if exit_code w k \<noteq> 0 then (Inl (CalledProcessError (exit_code w k)), tr')
      else (Inr (stdout w k), tr'))"

text \<open>\<^verbatim>\<open>subprocess.Popen(argv)\<close>: creates the child and returns at once with its handle.\<close>

definition popen :: "world \<Rightarrow> argv \<Rightarrow> nat io" where
  "popen w args tr =
     (let k = length tr; tr' = tr @ [Popen args] in
      if starts w k then (Inr k, tr') else (Inl OSError, tr'))"

text \<open>\<^verbatim>\<open>run.wait()\<close>: blocks until the child has exited and returns its exit code.\<close>

definition wait :: "world \<Rightarrow> nat \<Rightarrow> event list \<Rightarrow> int \<times> event list" where
  "wait w h tr = (exit_code w h, tr @ [Wait h])"

text \<open>
  The list comprehension \<^verbatim>\<open>[f(x) for x in xs]\<close> over a function that may raise: the
  elements are computed left to right and the first exception ends the comprehension.
\<close>

fun for_each :: "('a \<Rightarrow> 'b io) \<Rightarrow> 'a list \<Rightarrow> 'b list io" where
  "for_each f [] tr = (Inr [], tr)"
| "for_each f (x # xs) tr =
     (case f x tr of
        (Inl e, tr1) \<Rightarrow> (Inl e, tr1)
      | (Inr y, tr1) \<Rightarrow>
          (case for_each f xs tr1 of
             (Inl e, tr2) \<Rightarrow> (Inl e, tr2)
           | (Inr ys, tr2) \<Rightarrow> (Inr (y # ys), tr2)))"

text \<open>\<^verbatim>\<open>[run.wait() for run in runs]\<close>\<close>

fun wait_all :: "world \<Rightarrow> nat list \<Rightarrow> event list \<Rightarrow> int list \<times> event list" where
  "wait_all w [] tr = ([], tr)"
| "wait_all w (h # hs) tr =
     (case wait w h tr of (c, tr1) \<Rightarrow>
        (case wait_all w hs tr1 of (cs, tr2) \<Rightarrow> (c # cs, tr2)))"

section \<open>Python built-ins used by the modules\<close>

text \<open>\<^verbatim>\<open>sep.join(xs)\<close>\<close>

fun str_join :: "string \<Rightarrow> string list \<Rightarrow> string" where
  "str_join sep [] = []"
| "str_join sep [x] = x"
| "str_join sep (x # y # ys) = x @ sep @ str_join sep (y # ys)"

text \<open>
  \<^verbatim>\<open>all(...)\<close> over the generator \<^verbatim>\<open>exit == 0 for exit in exits\<close>: it stops at the
  first false element.
\<close>

fun py_all :: "bool list \<Rightarrow> bool" where
  "py_all [] = True"
| "py_all (b # bs) = (if b then py_all bs else False)"

text \<open>
  \<^verbatim>\<open>bytes.decode("utf-8")\<close>: the bytes must be well-formed UTF-8 (no overlong forms, no
  surrogates, nothing above U+10FFFF), else \<^verbatim>\<open>UnicodeDecodeError\<close>. The decoded
  \<^verbatim>\<open>str\<close> is represented by the same bytes.
\<close>

definition byte :: "char \<Rightarrow> nat" where
  "byte c = of_char c"

definition is_cont :: "char \<Rightarrow> bool" where
  "is_cont c = (128 \<le> byte c \<and> byte c < 192)"

fun utf8_valid :: "string \<Rightarrow> bool" where
  "utf8_valid [] = True"
| "utf8_valid [a] = (byte a < 128)"
| "utf8_valid [a, b] =
     (if byte a < 128 then utf8_valid [b]
      else 194 \<le> byte a \<and> byte a < 224 \<and> is_cont b)"
| "utf8_valid [a, b, c] =
     (if byte a < 128 then utf8_valid [b, c]
      else if 194 \<le> byte a \<and> byte a < 224 then is_cont b \<and> utf8_valid [c]
      else 224 \<le> byte a \<and> byte a < 240 \<and> is_cont b \<and> is_cont c
           \<and> (byte a = 224 \<longrightarrow> 160 \<le> byte b) \<and> (byte a = 237 \<longrightarrow> byte b < 160))"
| "utf8_valid (a # b # c # d # r) =
     (if byte a < 128 then utf8_valid (b # c # d # r)
      else if 194 \<le> byte a \<and> byte a < 224 then is_cont b \<and> utf8_valid (c # d # r)
      else if 224 \<le> byte a \<and> byte a < 240 then
        is_cont b \<and> is_cont c
        \<and> (byte a = 224 \<longrightarrow> 160 \<le> byte b) \<and> (byte a = 237 \<longrightarrow> byte b < 160)
        \<and> utf8_valid (d # r)
      else 240 \<le> byte a \<and> byte a < 245 \<and> is_cont b \<and> is_cont c \<and> is_cont d
           \<and> (byte a = 240 \<longrightarrow> 144 \<le> byte b) \<and> (byte a = 244 \<longrightarrow> byte b < 144)
           \<and> utf8_valid r)"

definition decode_utf8 :: "string \<Rightarrow> error + string" where
  "decode_utf8 bs = (if utf8_valid bs then Inr bs else Inl UnicodeDecodeError)"

text \<open>
  \<^verbatim>\<open>str.split()\<close> without arguments splits at runs of whitespace characters and
  yields no empty word. \<open>ws_len s\<close> is the number of bytes of the whitespace character
  \<open>s\<close> starts with, or 0: U+0009..U+000D, U+001C..U+0020, U+0085, U+00A0, U+1680,
  U+2000..U+200A, U+2028, U+2029, U+202F, U+205F, U+3000 in their UTF-8 encoding.
\<close>

fun ws_len :: "string \<Rightarrow> nat" where
  "ws_len [] = 0"
| "ws_len (a # s) =
     (let x = byte a in
      if (9 \<le> x \<and> x \<le> 13) \<or> (28 \<le> x \<and> x \<le> 32) then 1
      else if x = 194 then
        (case s of b # _ \<Rightarrow> if byte b = 133 \<or> byte b = 160 then 2 else 0 | _ \<Rightarrow> 0)
      else if x = 225 then
        (case s of b # c # _ \<Rightarrow> if byte b = 154 \<and> byte c = 128 then 3 else 0 | _ \<Rightarrow> 0)
      else if x = 226 then
        (case s of b # c # _ \<Rightarrow>
           if byte b = 128 \<and> ((128 \<le> byte c \<and> byte c \<le> 138) \<or> byte c = 168
                               \<or> byte c = 169 \<or> byte c = 175) then 3
           else if byte b = 129 \<and> byte c = 159 then 3 else 0
         | _ \<Rightarrow> 0)
      else if x = 227 then
        (case s of b # c # _ \<Rightarrow> if byte b = 128 \<and> byte c = 128 then 3 else 0 | _ \<Rightarrow> 0)
      else 0)"

function split_from :: "string \<Rightarrow> string \<Rightarrow> string list" where
  "split_from cur [] = (if cur = [] then [] else [cur])"
| "split_from cur (a # s) =
     (if ws_len (a # s) = 0 then split_from (cur @ [a]) s
      else (if cur = [] then [] else [cur]) @ split_from [] (drop (ws_len (a # s)) (a # s)))"
  by pat_completeness auto
termination
  by (relation "measure (\<lambda>(cur, s). length s)") auto

definition str_split :: "string \<Rightarrow> string list" where
  "str_split s = split_from [] s"

section \<open>The partitioner\<close>

text \<open>
  Modelled from the spec: \<^verbatim>\<open>chunk_into_n\<close> is imported from \<^verbatim>\<open>ci.ray_ci.utils\<close>,
  which is not among the sources. The spec's Partitioner: a parallelism \<open>n \<le> 0\<close> is a
  ConfigError; otherwise, with \<open>len = q * n + r\<close> and \<open>0 \<le> r < n\<close>, there are
  \<open>min n len\<close> contiguous partitions, the first \<open>r\<close> of \<open>q + 1\<close> targets and the rest
  of \<open>q\<close>, in input order; an empty input gives no partition.
\<close>

definition chunk_sizes :: "nat \<Rightarrow> nat \<Rightarrow> nat list" where
  "chunk_sizes len n =
     replicate (len mod n) (len div n + 1) @ replicate (min n len - len mod n) (len div n)"

fun slices :: "nat list \<Rightarrow> 'a list \<Rightarrow> 'a list list" where
  "slices [] xs = []"
| "slices (k # ks) xs = take k xs # slices ks (drop k xs)"

definition chunk_into_n :: "'a list \<Rightarrow> int \<Rightarrow> error + 'a list list" where
  "chunk_into_n targets n =
     (if n \<le> 0 then Inl ConfigError
      else Inr (slices (chunk_sizes (length targets) (nat n)) targets))"

section \<open>Module constants\<close>

text \<open>
  \<^verbatim>\<open>DOCKER_TAG = f"oss-ci-build_{os.environ.get('BUILDKITE_COMMIT')}"\<close> is computed once,
  when the module is loaded. The value of the environment variable is the parameter
  \<open>commit\<close>; an unset variable is \<open>None\<close>, which the f-string prints as \<^verbatim>\<open>None\<close>.
  Both modules define the same three constants and the same \<^verbatim>\<open>_get_docker_image\<close> and
  \<^verbatim>\<open>_get_docker_run_command\<close>.
\<close>

definition DOCKER_ECR :: string where
  "DOCKER_ECR = ''029272617770.dkr.ecr.us-west-2.amazonaws.com''"

definition DOCKER_REPO :: string where
  "DOCKER_REPO = ''ci_base_images''"

definition DOCKER_TAG :: "string option \<Rightarrow> string" where
  "DOCKER_TAG commit = ''oss-ci-build_'' @ (case commit of None \<Rightarrow> ''None'' | Some c \<Rightarrow> c)"

definition ROOT_DIR :: string where
  "ROOT_DIR = ''/ray/ci/ray_ci''"

definition get_docker_image :: "string option \<Rightarrow> string" where
  "get_docker_image commit = DOCKER_ECR @ ''/'' @ DOCKER_REPO @ '':'' @ DOCKER_TAG commit"

definition get_docker_run_command :: "string option \<Rightarrow> argv" where
  "get_docker_run_command commit =
     [''docker'', ''run'', ''-i'', ''--rm'', ''--workdir'', ''/ray'', ''--shm-size=2.5gb'',
      get_docker_image commit]"

section \<open>container.py\<close>

definition setup_test_environment_argv :: "string option \<Rightarrow> string \<Rightarrow> argv" where
  "setup_test_environment_argv commit team =
     [''docker'', ''build'',
      ''--build-arg'', ''BASE_IMAGE='' @ get_docker_image commit,
      ''--build-arg'', ''TEST_ENVIRONMENT_SCRIPT='' @ team @ ''.tests.env.sh'',
      ''-t'', get_docker_image commit,
      ''-f'', ROOT_DIR @ ''/tests.env.Dockerfile'',
      ROOT_DIR]"

definition setup_test_environment :: "world \<Rightarrow> string option \<Rightarrow> string \<Rightarrow> unit io" where
  "setup_test_environment w commit team =
     check_call w (setup_test_environment_argv commit team) [(''DOCKER_BUILDKIT'', ''1'')]"

definition docker_run_bash_script :: "string option \<Rightarrow> string \<Rightarrow> argv" where
  "docker_run_bash_script commit script =
     get_docker_run_command commit @ [''/bin/bash'', ''-ice'', script]"

definition container_test_command :: "string list \<Rightarrow> string" where
  "container_test_command test_targets =
     ''bazel test --config=ci '' @ str_join '' '' test_targets"

definition container_run_tests_in_docker :: "world \<Rightarrow> string option \<Rightarrow> string list \<Rightarrow> nat io" where
  "container_run_tests_in_docker w commit test_targets =
     (let command = container_test_command test_targets in
      popen w (docker_run_bash_script commit command))"

definition container_run_command :: "world \<Rightarrow> string option \<Rightarrow> string \<Rightarrow> string io" where
  "container_run_command w commit script =
     check_output w (docker_run_bash_script commit script)"

definition container_run_tests ::
  "world \<Rightarrow> string option \<Rightarrow> string \<Rightarrow> string list \<Rightarrow> int \<Rightarrow> bool io" where
  "container_run_tests w commit team test_targets parallelism tr =
     (case chunk_into_n test_targets parallelism of
        Inl e \<Rightarrow> (Inl e, tr)
      | Inr chunks \<Rightarrow>
          (case setup_test_environment w commit team tr of
             (Inl e, tr1) \<Rightarrow> (Inl e, tr1)
           | (Inr u, tr1) \<Rightarrow>
               (case for_each (container_run_tests_in_docker w commit) chunks tr1 of
                  (Inl e, tr2) \<Rightarrow> (Inl e, tr2)
                | (Inr runs, tr2) \<Rightarrow>
                    (case wait_all w runs tr2 of
                       (exits, tr3) \<Rightarrow>
                         (Inr (py_all (map (\<lambda>exit. exit = 0) exits)), tr3)))))"

section \<open>docker.py\<close>

definition docker_run_command :: "world \<Rightarrow> string option \<Rightarrow> string list \<Rightarrow> string io" where
  "docker_run_command w commit command =
     check_output w
       (get_docker_run_command commit @ [''/bin/bash'', ''-ic'', str_join '' '' command])"

definition docker_test_command :: "string list \<Rightarrow> string list \<Rightarrow> string list \<Rightarrow> string" where
  "docker_test_command test_targets pre_test_commands bazel_options =
     (let bazel_command = [''bazel'', ''test'', ''--config=ci''] @ test_targets @ bazel_options in
      str_join [CHR 0x0A] (pre_test_commands @ [str_join '' '' bazel_command]))"

definition docker_run_tests_in_docker ::
  "world \<Rightarrow> string option \<Rightarrow> string list \<Rightarrow> string list \<Rightarrow> nat io" where
  "docker_run_tests_in_docker w commit test_targets pre_test_commands tr =
     (case docker_run_command w commit [''./ci/run/bazel_export_options''] tr of
        (Inl e, tr1) \<Rightarrow> (Inl e, tr1)
      | (Inr out, tr1) \<Rightarrow>
          (case decode_utf8 out of
             Inl e \<Rightarrow> (Inl e, tr1)
           | Inr text \<Rightarrow>
               (let bazel_options = str_split text;
                    command = docker_test_command test_targets pre_test_commands bazel_options in
                popen w (get_docker_run_command commit @ [''/bin/bash'', ''-ic'', command]) tr1)))"

definition docker_run_tests ::
  "world \<Rightarrow> string option \<Rightarrow> string list \<Rightarrow> string list \<Rightarrow> int \<Rightarrow> int io" where
  "docker_run_tests w commit test_targets pre_run_commands parallelism tr =
     (case chunk_into_n test_targets parallelism of
        Inl e \<Rightarrow> (Inl e, tr)
      | Inr chunks \<Rightarrow>
          (case for_each (\<lambda>chunk. docker_run_tests_in_docker w commit chunk pre_run_commands)
                  chunks tr of
             (Inl e, tr1) \<Rightarrow> (Inl e, tr1)
           | (Inr runs, tr1) \<Rightarrow>
               (case wait_all w runs tr1 of
                  (exits, tr2) \<Rightarrow>
                    (Inr (if py_all (map (\<lambda>exit. exit = 0) exits) then 0 else 1), tr2))))"

section \<open>Reading a trace\<close>

text \<open>
  \<open>popen_from n es\<close> lists the positions of the \<^verbatim>\<open>Popen\<close> calls of \<open>es\<close>, counted from
  \<open>n\<close>: the handles those calls return. \<open>waited es\<close> lists the handles that were waited
  on, in order.
\<close>

fun popen_from :: "nat \<Rightarrow> event list \<Rightarrow> nat list" where
  "popen_from n [] = []"
| "popen_from n (e # es) = (if is_Popen e then [n] else []) @ popen_from (Suc n) es"

fun waited :: "event list \<Rightarrow> nat list" where
  "waited [] = []"
| "waited (Wait h # es) = h # waited es"
| "waited (e # es) = waited es"


text \<open>
  Which image a subprocess call names: for \<^verbatim>\<open>docker build\<close> the argument that follows
  \<^verbatim>\<open>-t\<close>, for \<^verbatim>\<open>docker run -i --rm --workdir DIR --shm-size=S IMAGE ...\<close> the first
  positional argument.
\<close>

fun build_tag :: "argv \<Rightarrow> string option" where
  "build_tag (a # b # r) = (if a = ''-t'' then Some b else build_tag (b # r))"
| "build_tag r = None"

fun run_image :: "argv \<Rightarrow> string option" where
  "run_image (d # r # i # rm # wd # dir # shm # img # rest) = Some img"
| "run_image r = None"

fun event_image :: "event \<Rightarrow> string option" where
  "event_image (CheckCall a env) = build_tag a"
| "event_image (CheckOutput a) = run_image a"
| "event_image (Popen a) = run_image a"
| "event_image (Wait h) = None"

section \<open>Scenarios\<close>

text \<open>Concrete worlds and runs, used to evaluate the functions above.\<close>

definition world_all_pass :: world where
  "world_all_pass = \<lparr>starts = (\<lambda>k. True), exit_code = (\<lambda>k. 0), stdout = (\<lambda>k. ''--jobs=4 --keep_going'')\<rparr>"

definition world_one_fails :: world where
  "world_one_fails =
     \<lparr>starts = (\<lambda>k. True), exit_code = (\<lambda>k. if k = 2 then 1 else 0), stdout = (\<lambda>k. [])\<rparr>"

definition world_docker_one_fails :: world where
  "world_docker_one_fails =
     \<lparr>starts = (\<lambda>k. True), exit_code = (\<lambda>k. if k = 3 then 1 else 0),
      stdout = (\<lambda>k. ''--jobs=4 --keep_going'')\<rparr>"

definition container_run_B :: "(error + bool) \<times> event list" where
  "container_run_B =
     container_run_tests world_one_fails (Some ''abc'') ''core'' [''//a'', ''//b'', ''//c''] 3 []"

definition docker_run_B :: "(error + int) \<times> event list" where
  "docker_run_B =
     docker_run_tests world_docker_one_fails (Some ''abc'') [''//a'', ''//b'', ''//c'']
       [''export CI=1''] 2 []"

definition docker_run_B3 :: "(error + int) \<times> event list" where
  "docker_run_B3 =
     docker_run_tests world_docker_one_fails (Some ''abc'') [''//a'', ''//b'', ''//c'']
       [''export CI=1''] 3 []"

definition scenario_A_targets :: "string list" where
  "scenario_A_targets =
     [''t1'', ''t2'', ''t3'', ''t4'', ''t5'', ''t6'', ''t7'', ''t8'', ''t9'', ''t10'']"

definition scenario_A_partitions :: "string list list" where
  "scenario_A_partitions =
     [[''t1'', ''t2'', ''t3'', ''t4''], [''t5'', ''t6'', ''t7''], [''t8'', ''t9'', ''t10'']]"

definition world_launch_fails :: world where
  "world_launch_fails = \<lparr>starts = (\<lambda>k. k \<noteq> 2), exit_code = (\<lambda>k. 0), stdout = (\<lambda>k. [])\<rparr>"

definition world_build_fails :: world where
  "world_build_fails = \<lparr>starts = (\<lambda>k. True), exit_code = (\<lambda>k. if k = 0 then 2 else 0), stdout = (\<lambda>k. [])\<rparr>"







section \<open>Properties of the trace functions\<close>

lemma py_all_set: "py_all bs = (\<forall>b\<in>set bs. b)"
  by (induction bs) auto

lemma py_all_map: "py_all (map P xs) = (\<forall>x\<in>set xs. P x)"
  by (simp add: py_all_set)

lemma wait_all_eq: "wait_all w hs tr = (map (exit_code w) hs, tr @ map Wait hs)"
  by (induction hs arbitrary: tr) (simp_all add: wait_def)

lemma popen_from_append:
  "popen_from n (xs @ ys) = popen_from n xs @ popen_from (n + length xs) ys"
  by (induction xs arbitrary: n) simp_all



lemma waited_append: "waited (xs @ ys) = waited xs @ waited ys"
  by (induction xs rule: waited.induct) simp_all

lemma waited_map_Wait: "waited (map Wait hs) = hs"
  by (induction hs) simp_all

lemma waited_no_Wait: "\<forall>e\<in>set es. \<not> is_Wait e \<Longrightarrow> waited es = []"
  by (induction es rule: waited.induct) simp_all


lemma for_each_events:
  assumes f: "\<And>x tr r tr'. f x tr = (r, tr') \<Longrightarrow> \<exists>ev. tr' = tr @ ev \<and> (\<forall>e\<in>set ev. Q e)"
  shows "for_each f xs tr = (r, tr') \<Longrightarrow> \<exists>ev. tr' = tr @ ev \<and> (\<forall>e\<in>set ev. Q e)"
proof (induction xs arbitrary: tr r tr')
  case Nil
  then show ?case by simp
next
  case (Cons x xs)
  obtain r1 tr1 where fx: "f x tr = (r1, tr1)" by (cases "f x tr")
  from f [OF fx] obtain ev1 where ev1: "tr1 = tr @ ev1" "\<forall>e\<in>set ev1. Q e" by blast
  show ?case
  proof (cases r1)
    case (Inl e)
    with Cons.prems fx have "tr' = tr1" by simp
    with ev1 show ?thesis by blast
  next
    case (Inr y)
    obtain r2 tr2 where rest: "for_each f xs tr1 = (r2, tr2)" by (cases "for_each f xs tr1")
    from Cons.IH [OF rest] obtain ev2 where ev2: "tr2 = tr1 @ ev2" "\<forall>e\<in>set ev2. Q e" by blast
    from Cons.prems fx Inr rest have "tr' = tr2" by (cases r2) simp_all
    with ev1 ev2 have "tr' = tr @ (ev1 @ ev2)" "\<forall>e\<in>set (ev1 @ ev2). Q e" by auto
    then show ?thesis by blast
  qed
qed

lemma for_each_handles:
  assumes f: "\<And>x tr h tr'. f x tr = (Inr h, tr') \<Longrightarrow>
                \<exists>ev. tr' = tr @ ev \<and> popen_from (length tr) ev = [h]"
  shows "for_each f xs tr = (Inr hs, tr') \<Longrightarrow>
           \<exists>ev. tr' = tr @ ev \<and> popen_from (length tr) ev = hs \<and> length hs = length xs"
proof (induction xs arbitrary: tr hs tr')
  case Nil
  then show ?case by simp
next
  case (Cons x xs)
  obtain r1 tr1 where fx: "f x tr = (r1, tr1)" by (cases "f x tr")
  from Cons.prems fx obtain h where r1: "r1 = Inr h" by (cases r1) simp_all
  from f fx r1 obtain ev1 where ev1: "tr1 = tr @ ev1" "popen_from (length tr) ev1 = [h]" by blast
  obtain r2 tr2 where rest: "for_each f xs tr1 = (r2, tr2)" by (cases "for_each f xs tr1")
  from Cons.prems fx r1 rest obtain hs2 where r2: "r2 = Inr hs2" by (cases r2) simp_all
  from Cons.prems fx r1 rest r2 have res: "hs = h # hs2" "tr' = tr2" by simp_all
  from Cons.IH rest r2 obtain ev2 where
    ev2: "tr2 = tr1 @ ev2" "popen_from (length tr1) ev2 = hs2" "length hs2 = length xs" by blast
  have "tr' = tr @ (ev1 @ ev2)" using res ev1 ev2 by simp
  moreover have "popen_from (length tr) (ev1 @ ev2) = hs"
    using res ev1 ev2 by (simp add: popen_from_append)
  moreover have "length hs = length (x # xs)" using res ev2 by simp
  ultimately show ?case by blast
qed

text \<open>The two launch functions, one call at a time.\<close>

lemma container_launch:
  "container_run_tests_in_docker w commit x tr =
     (if starts w (length tr) then Inr (length tr) else Inl OSError,
      tr @ [Popen (docker_run_bash_script commit (container_test_command x))])"
  by (simp add: container_run_tests_in_docker_def popen_def Let_def)

lemma docker_launch:
  "docker_run_tests_in_docker w commit x pre tr =
     (let k = length tr;
          q = CheckOutput (get_docker_run_command commit
                @ [''/bin/bash'', ''-ic'', ''./ci/run/bazel_export_options'']);
          p = Popen (get_docker_run_command commit
                @ [''/bin/bash'', ''-ic'', docker_test_command x pre (str_split (stdout w k))])
      in if \<not> starts w k then (Inl OSError, tr @ [q])
         else if exit_code w k \<noteq> 0 then (Inl (CalledProcessError (exit_code w k)), tr @ [q])
         else if \<not> utf8_valid (stdout w k) then (Inl UnicodeDecodeError, tr @ [q])
         else if starts w (Suc k) then (Inr (Suc k), tr @ [q, p])
         else (Inl OSError, tr @ [q, p]))"
  by (simp add: docker_run_tests_in_docker_def docker_run_command_def check_output_def
      decode_utf8_def popen_def Let_def)

lemma container_launch_events:
  "container_run_tests_in_docker w commit x tr = (r, tr') \<Longrightarrow>
     \<exists>ev. tr' = tr @ ev \<and> (\<forall>e\<in>set ev. \<not> is_Wait e)"
  by (auto simp: container_launch)

lemma docker_launch_events:
  "docker_run_tests_in_docker w commit x pre tr = (r, tr') \<Longrightarrow>
     \<exists>ev. tr' = tr @ ev \<and> (\<forall>e\<in>set ev. \<not> is_Wait e)"
  by (auto simp: docker_launch Let_def split: if_splits)

lemma container_launch_handle:
  "container_run_tests_in_docker w commit x tr = (Inr h, tr') \<Longrightarrow>
     \<exists>ev. tr' = tr @ ev \<and> popen_from (length tr) ev = [h]"
  by (auto simp: container_launch split: if_splits)

lemma docker_launch_handle:
  "docker_run_tests_in_docker w commit x pre tr = (Inr h, tr') \<Longrightarrow>
     \<exists>ev. tr' = tr @ ev \<and> popen_from (length tr) ev = [h]"
  by (auto simp: docker_launch Let_def split: if_splits)


lemma container_run_Inr:
  assumes "container_run_tests w commit team targets n [] = (Inr b, tr)"
  shows "\<exists>chunks ev hs. chunk_into_n targets n = Inr chunks
           \<and> starts w 0 \<and> exit_code w 0 = 0
           \<and> tr = CheckCall (setup_test_environment_argv commit team) [(''DOCKER_BUILDKIT'', ''1'')]
                   # ev @ map Wait hs
           \<and> (\<forall>e\<in>set ev. \<not> is_Wait e)
           \<and> popen_from 1 ev = hs \<and> length hs = length chunks
           \<and> b = (\<forall>h\<in>set hs. exit_code w h = 0)"
proof -
  let ?c = "CheckCall (setup_test_environment_argv commit team) [(''DOCKER_BUILDKIT'', ''1'')]"
  from assms obtain chunks where ch: "chunk_into_n targets n = Inr chunks"
    by (cases "chunk_into_n targets n") (simp_all add: container_run_tests_def)
  have su: "setup_test_environment w commit team [] =
      (if \<not> starts w 0 then Inl OSError
       else if exit_code w 0 \<noteq> 0 then Inl (CalledProcessError (exit_code w 0)) else Inr (), [?c])"
    by (simp add: setup_test_environment_def check_call_def)
  from assms ch su have ok: "starts w 0" "exit_code w 0 = 0"
    by (auto simp: container_run_tests_def split: if_splits)
  obtain r2 tr2 where fe: "for_each (container_run_tests_in_docker w commit) chunks [?c] = (r2, tr2)"
    by (cases "for_each (container_run_tests_in_docker w commit) chunks [?c]")
  from assms ch su ok fe obtain hs where r2: "r2 = Inr hs"
    by (cases r2) (simp_all add: container_run_tests_def)
  from assms ch su ok fe r2
  have res: "b = (\<forall>h\<in>set hs. exit_code w h = 0)" "tr = tr2 @ map Wait hs"
    by (simp_all add: container_run_tests_def wait_all_eq py_all_map)
  have "\<exists>ev. tr2 = [?c] @ ev \<and> (\<forall>e\<in>set ev. \<not> is_Wait e)"
    by (rule for_each_events [OF _ fe]) (erule container_launch_events)
  then obtain ev where ev: "tr2 = [?c] @ ev" "\<forall>e\<in>set ev. \<not> is_Wait e" by blast
  have "\<exists>ev. tr2 = [?c] @ ev \<and> popen_from (length [?c]) ev = hs \<and> length hs = length chunks"
    by (rule for_each_handles [OF _ fe [unfolded r2]]) (erule container_launch_handle)
  then obtain ev' where
    ev': "tr2 = [?c] @ ev'" "popen_from (length [?c]) ev' = hs" "length hs = length chunks"
    by blast
  from ev ev' have "ev' = ev" by simp
  with ev ev' res ch ok show ?thesis by auto
qed

lemma docker_run_Inr:
  assumes "docker_run_tests w commit targets pre n [] = (Inr v, tr)"
  shows "\<exists>chunks ev hs. chunk_into_n targets n = Inr chunks
           \<and> tr = ev @ map Wait hs
           \<and> (\<forall>e\<in>set ev. \<not> is_Wait e)
           \<and> popen_from 0 ev = hs \<and> length hs = length chunks
           \<and> v = (if \<forall>h\<in>set hs. exit_code w h = 0 then 0 else 1)"
proof -
  let ?f = "\<lambda>chunk. docker_run_tests_in_docker w commit chunk pre"
  from assms obtain chunks where ch: "chunk_into_n targets n = Inr chunks"
    by (cases "chunk_into_n targets n") (simp_all add: docker_run_tests_def)
  obtain r2 tr2 where fe: "for_each ?f chunks [] = (r2, tr2)"
    by (cases "for_each ?f chunks []")
  from assms ch fe obtain hs where r2: "r2 = Inr hs"
    by (cases r2) (simp_all add: docker_run_tests_def)
  from assms ch fe r2
  have res: "v = (if \<forall>h\<in>set hs. exit_code w h = 0 then 0 else 1)" "tr = tr2 @ map Wait hs"
    by (simp_all add: docker_run_tests_def wait_all_eq py_all_map)
  have "\<exists>ev. tr2 = [] @ ev \<and> (\<forall>e\<in>set ev. \<not> is_Wait e)"
    by (rule for_each_events [OF _ fe]) (erule docker_launch_events)
  then obtain ev where ev: "tr2 = [] @ ev" "\<forall>e\<in>set ev. \<not> is_Wait e" by blast
  have "\<exists>ev. tr2 = [] @ ev \<and> popen_from (length ([]::event list)) ev = hs
          \<and> length hs = length chunks"
    by (rule for_each_handles [OF _ fe [unfolded r2]]) (erule docker_launch_handle)
  then obtain ev' where
    ev': "tr2 = [] @ ev'" "popen_from (length ([]::event list)) ev' = hs" "length hs = length chunks"
    by blast
  from ev ev' have "ev' = ev" by simp
  with ev ev' res ch show ?thesis by auto
qed


lemma waited_fan:
  assumes "\<forall>e\<in>set fo. \<not> is_Wait e"
  shows "waited (fo @ map Wait hs) = hs"
  using assms by (simp add: waited_append waited_map_Wait waited_no_Wait)


section \<open>The result reduction\<close>

text \<open>
  Claim C1. The reduction \<^verbatim>\<open>all(exit == 0 for exit in exits)\<close> is true exactly when every
  exit code is 0 (so it is true of the empty list, and one non-zero code makes it false).
  When \<^verbatim>\<open>container.run_tests\<close> returns, it returns that reduction of the exit codes of
  the handles it waited on, and \<^verbatim>\<open>docker.run_tests\<close> returns 0 when the reduction is
  true and 1 otherwise. With no partition at all, \<^verbatim>\<open>container.run_tests\<close> returns
  \<^verbatim>\<open>True\<close> (once the build has succeeded) and \<^verbatim>\<open>docker.run_tests\<close> returns 0.
\<close>

theorem result_reduction:
  "(py_all (map (\<lambda>exit. exit = 0) exits) \<longleftrightarrow> (\<forall>e\<in>set exits. e = (0::int)))
   \<and> (container_run_tests w commit team targets n [] = (Inr b, tr) \<longrightarrow>
        (b \<longleftrightarrow> (\<forall>e\<in>set (map (exit_code w) (waited tr)). e = 0)))
   \<and> (docker_run_tests w commit targets pre n [] = (Inr v, tr') \<longrightarrow>
        v = (if \<forall>e\<in>set (map (exit_code w) (waited tr')). e = 0 then 0 else 1))
   \<and> (chunk_into_n targets n = Inr [] \<and> starts w 0 \<and> exit_code w 0 = 0 \<longrightarrow>
        fst (container_run_tests w commit team targets n []) = Inr True)
   \<and> (chunk_into_n targets n = Inr [] \<longrightarrow>
        fst (docker_run_tests w commit targets pre n []) = Inr 0)"
proof (intro conjI impI)
  show "py_all (map (\<lambda>exit. exit = 0) exits) \<longleftrightarrow> (\<forall>e\<in>set exits. e = (0::int))"
    by (simp add: py_all_map)
next
  assume "container_run_tests w commit team targets n [] = (Inr b, tr)"
  from container_run_Inr [OF this] obtain c ev hs where
    "tr = c # ev @ map Wait hs" "\<forall>e\<in>set ev. \<not> is_Wait e" "\<not> is_Wait c"
    "b = (\<forall>h\<in>set hs. exit_code w h = 0)"
    by fastforce
  moreover from this have "waited tr = hs"
    using waited_fan [of "c # ev" hs] by simp
  ultimately show "b \<longleftrightarrow> (\<forall>e\<in>set (map (exit_code w) (waited tr)). e = 0)" by simp
next
  assume "docker_run_tests w commit targets pre n [] = (Inr v, tr')"
  from docker_run_Inr [OF this] obtain ev hs where
    "tr' = ev @ map Wait hs" "\<forall>e\<in>set ev. \<not> is_Wait e"
    "v = (if \<forall>h\<in>set hs. exit_code w h = 0 then 0 else 1)"
    by blast
  moreover from this have "waited tr' = hs"
    using waited_fan [of ev hs] by simp
  ultimately show "v = (if \<forall>e\<in>set (map (exit_code w) (waited tr')). e = 0 then 0 else 1)" by simp
next
  assume "chunk_into_n targets n = Inr [] \<and> starts w 0 \<and> exit_code w 0 = 0"
  then show "fst (container_run_tests w commit team targets n []) = Inr True"
    by (simp add: container_run_tests_def setup_test_environment_def check_call_def)
next
  assume "chunk_into_n targets n = Inr []"
  then show "fst (docker_run_tests w commit targets pre n []) = Inr 0"
    by (simp add: docker_run_tests_def)
qed


theorem result_reduction_witness:
  "(py_all (map (\<lambda>exit. exit = 0) [0, 1, 0::int]) \<longleftrightarrow> (\<forall>e\<in>set [0, 1, 0::int]. e = 0))
   \<and> container_run_tests world_one_fails (Some ''abc'') ''core'' [''//a'', ''//b'', ''//c''] 3 []
       = (Inr False, snd container_run_B)
   \<and> (False \<longleftrightarrow> (\<forall>e\<in>set (map (exit_code world_one_fails) (waited (snd container_run_B))). e = 0))
   \<and> docker_run_tests world_docker_one_fails (Some ''abc'') [''//a'', ''//b'', ''//c'']
         [''export CI=1''] 2 [] = (Inr 1, snd docker_run_B)
   \<and> (1::int) = (if \<forall>e\<in>set (map (exit_code world_docker_one_fails) (waited (snd docker_run_B))). e = 0
                  then 0 else 1)
   \<and> chunk_into_n ([]::string list) 3 = Inr []
   \<and> starts world_all_pass 0 \<and> exit_code world_all_pass 0 = 0
   \<and> fst (container_run_tests world_all_pass (Some ''abc'') ''core'' [] 3 []) = Inr True
   \<and> fst (docker_run_tests world_all_pass (Some ''abc'') [] [''export CI=1''] 3 []) = Inr 0"
proof -
  have e: "chunk_into_n ([]::string list) 3 = Inr []" by code_simp
  have s0: "starts world_all_pass 0" and x0: "exit_code world_all_pass 0 = 0"
    by (simp_all add: world_all_pass_def)
  have 4: "fst (container_run_tests world_all_pass (Some ''abc'') ''core'' [] 3 []) = Inr True"
    by (rule result_reduction [THEN conjunct2, THEN conjunct2, THEN conjunct2, THEN conjunct1,
          THEN mp, OF conjI, OF e conjI, OF s0 x0])
  have 5: "fst (docker_run_tests world_all_pass (Some ''abc'') [] [''export CI=1''] 3 []) = Inr 0"
    by (rule result_reduction [THEN conjunct2, THEN conjunct2, THEN conjunct2, THEN conjunct2,
          THEN mp, OF e])
  have "container_run_B = (Inr False, snd container_run_B)"
    by code_simp
  then have c: "container_run_tests world_one_fails (Some ''abc'') ''core''
                  [''//a'', ''//b'', ''//c''] 3 [] = (Inr False, snd container_run_B)"
    by (simp only: container_run_B_def [symmetric])
  have "docker_run_B = (Inr 1, snd docker_run_B)"
    by code_simp
  then have d: "docker_run_tests world_docker_one_fails (Some ''abc'') [''//a'', ''//b'', ''//c'']
                  [''export CI=1''] 2 [] = (Inr 1, snd docker_run_B)"
    by (simp only: docker_run_B_def [symmetric])
  have 1: "py_all (map (\<lambda>exit. exit = 0) [0, 1, 0::int]) \<longleftrightarrow> (\<forall>e\<in>set [0, 1, 0::int]. e = 0)"
    by (rule result_reduction [THEN conjunct1])
  have 2: "False \<longleftrightarrow> (\<forall>e\<in>set (map (exit_code world_one_fails) (waited (snd container_run_B))). e = 0)"
    by (rule result_reduction [THEN conjunct2, THEN conjunct1, THEN mp, OF c])
  have 3: "(1::int) = (if \<forall>e\<in>set (map (exit_code world_docker_one_fails) (waited (snd docker_run_B))). e = 0
                  then 0 else 1)"
    by (rule result_reduction [THEN conjunct2, THEN conjunct2, THEN conjunct1, THEN mp, OF d])
  show ?thesis
    by (intro conjI) (fact 1 c 2 d 3 e s0 x0 4 5)+
qed

section \<open>The two variants agree\<close>

text \<open>
  Claim C9. When \<^verbatim>\<open>container.run_tests\<close> and \<^verbatim>\<open>docker.run_tests\<close> return after
  collecting the same list of exit codes, the first returns \<^verbatim>\<open>True\<close> exactly when the
  second returns 0, and \<^verbatim>\<open>False\<close> exactly when the second returns 1.
\<close>

theorem verdicts_agree:
  "container_run_tests w commit team targets n [] = (Inr b, tr) \<Longrightarrow>
   docker_run_tests w' commit' targets' pre n' [] = (Inr v, tr') \<Longrightarrow>
   map (exit_code w) (waited tr) = map (exit_code w') (waited tr') \<Longrightarrow>
     (b \<longleftrightarrow> v = 0) \<and> (\<not> b \<longleftrightarrow> v = 1)"
proof -
  assume c: "container_run_tests w commit team targets n [] = (Inr b, tr)"
    and d: "docker_run_tests w' commit' targets' pre n' [] = (Inr v, tr')"
    and e: "map (exit_code w) (waited tr) = map (exit_code w') (waited tr')"
  from container_run_Inr [OF c] obtain c0 ev hs where
    1: "tr = (c0 # ev) @ map Wait hs" "\<forall>e\<in>set (c0 # ev). \<not> is_Wait e"
       "b = (\<forall>h\<in>set hs. exit_code w h = 0)"
    by fastforce
  from docker_run_Inr [OF d] obtain ev' hs' where
    2: "tr' = ev' @ map Wait hs'" "\<forall>e\<in>set ev'. \<not> is_Wait e"
       "v = (if \<forall>h\<in>set hs'. exit_code w' h = 0 then 0 else 1)"
    by blast
  from 1 have b: "b = (\<forall>x\<in>set (map (exit_code w) (waited tr)). x = 0)"
    by (simp only: waited_fan) simp
  from 2 have v: "v = (if \<forall>x\<in>set (map (exit_code w') (waited tr')). x = 0 then 0 else 1)"
    by (simp only: waited_fan) simp
  from b v e show ?thesis by simp
qed


theorem verdicts_agree_witness:
  "container_run_tests world_one_fails (Some ''abc'') ''core'' [''//a'', ''//b'', ''//c''] 3 []
       = (Inr False, snd container_run_B)
   \<and> docker_run_tests world_docker_one_fails (Some ''abc'') [''//a'', ''//b'', ''//c'']
         [''export CI=1''] 3 [] = (Inr 1, snd docker_run_B3)
   \<and> map (exit_code world_one_fails) (waited (snd container_run_B))
       = map (exit_code world_docker_one_fails) (waited (snd docker_run_B3))
   \<and> (False \<longleftrightarrow> (1::int) = 0) \<and> (\<not> False \<longleftrightarrow> (1::int) = 1)"
proof -
  have "container_run_B = (Inr False, snd container_run_B)"
    by code_simp
  then have c: "container_run_tests world_one_fails (Some ''abc'') ''core''
                  [''//a'', ''//b'', ''//c''] 3 [] = (Inr False, snd container_run_B)"
    by (simp only: container_run_B_def [symmetric])
  have "docker_run_B3 = (Inr 1, snd docker_run_B3)"
    by code_simp
  then have d: "docker_run_tests world_docker_one_fails (Some ''abc'') [''//a'', ''//b'', ''//c'']
                  [''export CI=1''] 3 [] = (Inr 1, snd docker_run_B3)"
    by (simp only: docker_run_B3_def [symmetric])
  have e: "map (exit_code world_one_fails) (waited (snd container_run_B))
       = map (exit_code world_docker_one_fails) (waited (snd docker_run_B3))"
    by code_simp
  from verdicts_agree [OF c d e]
  have v: "(False \<longleftrightarrow> (1::int) = 0) \<and> (\<not> False \<longleftrightarrow> (1::int) = 1)" .
  show ?thesis
    by (intro conjI) (fact c d e v [THEN conjunct1] v [THEN conjunct2])+
qed

section \<open>The partitioner's contract\<close>

lemma concat_slices: "concat (slices ks xs) = take (sum_list ks) xs"
proof (induction ks arbitrary: xs)
  case Nil
  show ?case by simp
next
  case (Cons k ks)
  have "take k xs @ take (sum_list ks) (drop k xs) = take (k + sum_list ks) xs"
    by (simp add: take_add)
  with Cons show ?case by simp
qed

lemma length_slices: "length (slices ks xs) = length ks"
  by (induction ks arbitrary: xs) simp_all

lemma map_length_slices:
  "sum_list ks \<le> length xs \<Longrightarrow> map length (slices ks xs) = ks"
  by (induction ks arbitrary: xs) simp_all

lemma chunk_sizes_rest:
  assumes "0 < (n::nat)"
  shows "len mod n \<le> min n len"
proof -
  have "len mod n < n" using assms by simp
  moreover have "len mod n \<le> len" by (rule mod_less_eq_dividend)
  ultimately show ?thesis by simp
qed

lemma length_chunk_sizes: "0 < n \<Longrightarrow> length (chunk_sizes len n) = min n len"
  using chunk_sizes_rest [of n len] by (simp add: chunk_sizes_def)

lemma sum_list_chunk_sizes:
  assumes "0 < n"
  shows "sum_list (chunk_sizes len n) = len"
proof (cases "n \<le> len")
  case True
  then have m: "min n len = n" by simp
  have r: "len mod n \<le> n" using assms by (simp add: less_imp_le)
  have "len mod n * (len div n + 1) + (n - len mod n) * (len div n)
          = (len mod n + (n - len mod n)) * (len div n) + len mod n"
    by (simp add: algebra_simps)
  also have "\<dots> = n * (len div n) + len mod n" using r by simp
  also have "\<dots> = len" by simp
  finally show ?thesis by (simp add: chunk_sizes_def sum_list_replicate m)
next
  case False
  then have "len < n" by simp
  then show ?thesis by (simp add: chunk_sizes_def sum_list_replicate)
qed

lemma chunk_sizes_positive:
  assumes "0 < n"
  shows "0 \<notin> set (chunk_sizes len n)"
proof (cases "n \<le> len")
  case True
  then have "0 < len div n" using assms by (simp add: div_greater_zero_iff)
  then show ?thesis by (auto simp: chunk_sizes_def)
next
  case False
  then have "len < n" by simp
  then show ?thesis by (simp add: chunk_sizes_def)
qed

lemma chunk_sizes_nth:
  assumes "0 < n" "i < min n len"
  shows "chunk_sizes len n ! i = (if i < len mod n then len div n + 1 else len div n)"
  using assms chunk_sizes_rest [of n len]
  by (auto simp: chunk_sizes_def nth_append)


lemma chunk_into_n_Inr:
  "0 < n \<Longrightarrow> chunk_into_n targets n = Inr (slices (chunk_sizes (length targets) (nat n)) targets)"
  by (simp add: chunk_into_n_def)

lemma divmod_unique_nat:
  fixes q r n len :: nat
  assumes "len = q * n + r" "r < n"
  shows "len div n = q \<and> len mod n = r"
  using assms by simp

text \<open>
  Claim C2. For a positive \<open>n\<close>, \<open>chunk_into_n\<close> returns no partition for an empty
  target list; for a non-empty list it returns \<open>min n (length targets)\<close> partitions, none
  empty, whose concatenation in order is the target list, with sizes that differ by at
  most 1: when \<open>length targets = q * n + r\<close> with \<open>r < n\<close>, the first \<open>r\<close> partitions
  have \<open>q + 1\<close> targets and the others \<open>q\<close>.
\<close>

theorem chunk_into_n_partition:
  "0 < n \<Longrightarrow>
     (targets = [] \<longrightarrow> chunk_into_n targets n = Inr [])
   \<and> (targets \<noteq> [] \<longrightarrow>
        (\<exists>ps. chunk_into_n targets n = Inr ps
           \<and> length ps = min (nat n) (length targets)
           \<and> (\<forall>p\<in>set ps. p \<noteq> [])
           \<and> concat ps = targets
           \<and> (\<forall>i<length ps. \<forall>j<length ps. length (ps ! i) \<le> length (ps ! j) + 1)
           \<and> (\<forall>q r. length targets = q * nat n + r \<and> r < nat n \<longrightarrow>
                 (\<forall>i<length ps. length (ps ! i) = (if i < r then q + 1 else q)))))"
proof (intro conjI impI)
  assume n: "0 < n"
  then have n': "0 < nat n" by simp
  let ?len = "length targets"
  let ?ks = "chunk_sizes ?len (nat n)"
  let ?ps = "slices ?ks targets"
  have run: "chunk_into_n targets n = Inr ?ps"
    using n by (rule chunk_into_n_Inr)
  {
    assume "targets = []"
    then show "chunk_into_n targets n = Inr []"
      using n by (simp add: chunk_into_n_def chunk_sizes_def)
  }
  {
    assume "targets \<noteq> []"
    have sum: "sum_list ?ks = ?len" using n' by (rule sum_list_chunk_sizes)
    have len: "length ?ps = min (nat n) ?len"
      using n' by (simp add: length_slices length_chunk_sizes)
    have lens: "map length ?ps = ?ks"
      using sum by (simp add: map_length_slices)
    have nth: "length (?ps ! i) = (if i < ?len mod nat n then ?len div nat n + 1 else ?len div nat n)"
      if "i < length ?ps" for i
    proof -
      from that have "length (?ps ! i) = map length ?ps ! i" by simp
      also have "\<dots> = ?ks ! i" by (simp only: lens)
      also have "\<dots> = (if i < ?len mod nat n then ?len div nat n + 1 else ?len div nat n)"
        using n' that len by (simp add: chunk_sizes_nth)
      finally show ?thesis .
    qed
    have nonempty: "\<forall>p\<in>set ?ps. p \<noteq> []"
    proof
      fix p assume "p \<in> set ?ps"
      then have "length p \<in> set (map length ?ps)" by simp
      then have "length p \<in> set ?ks" by (simp only: lens)
      with chunk_sizes_positive [OF n', of ?len] have "length p \<noteq> 0" by metis
      then show "p \<noteq> []" by simp
    qed
    have cover: "concat ?ps = targets"
      by (simp add: concat_slices sum)
    have balanced: "\<forall>i<length ?ps. \<forall>j<length ?ps. length (?ps ! i) \<le> length (?ps ! j) + 1"
      by (simp add: nth)
    have sizes: "\<forall>q r. ?len = q * nat n + r \<and> r < nat n \<longrightarrow>
                 (\<forall>i<length ?ps. length (?ps ! i) = (if i < r then q + 1 else q))"
    proof (intro allI impI)
      fix q r i
      assume qr: "?len = q * nat n + r \<and> r < nat n" and i: "i < length ?ps"
      from qr have "?len div nat n = q \<and> ?len mod nat n = r"
        using divmod_unique_nat [of ?len q "nat n" r] by blast
      with nth [OF i] show "length (?ps ! i) = (if i < r then q + 1 else q)" by simp
    qed
    from run len nonempty cover balanced sizes
    show "\<exists>ps. chunk_into_n targets n = Inr ps
           \<and> length ps = min (nat n) (length targets)
           \<and> (\<forall>p\<in>set ps. p \<noteq> [])
           \<and> concat ps = targets
           \<and> (\<forall>i<length ps. \<forall>j<length ps. length (ps ! i) \<le> length (ps ! j) + 1)
           \<and> (\<forall>q r. length targets = q * nat n + r \<and> r < nat n \<longrightarrow>
                 (\<forall>i<length ps. length (ps ! i) = (if i < r then q + 1 else q)))"
      by blast
  }
qed

theorem chunk_into_n_partition_witness:
  "(0::int) < 3 \<and> scenario_A_targets \<noteq> []
   \<and> chunk_into_n scenario_A_targets 3 = Inr scenario_A_partitions
   \<and> length scenario_A_partitions = min (nat 3) (length scenario_A_targets)
   \<and> [] \<notin> set scenario_A_partitions
   \<and> concat scenario_A_partitions = scenario_A_targets
   \<and> length scenario_A_targets = 3 * nat 3 + 1 \<and> (1::nat) < nat 3
   \<and> length (scenario_A_partitions ! 0) = 3 + 1
   \<and> length (scenario_A_partitions ! 1) = 3
   \<and> length (scenario_A_partitions ! 2) = 3
   \<and> chunk_into_n ([]::string list) 3 = Inr []"
proof -
  have pos: "(0::int) < 3" by simp
  have ne: "scenario_A_targets \<noteq> []" by (simp add: scenario_A_targets_def)
  have ev: "chunk_into_n scenario_A_targets 3 = Inr scenario_A_partitions" by code_simp
  have qr: "length scenario_A_targets = 3 * nat 3 + 1 \<and> (1::nat) < nat 3"
    by (simp add: scenario_A_targets_def)
  from chunk_into_n_partition [OF pos, THEN conjunct2, THEN mp, OF ne]
  obtain ps where ps: "chunk_into_n scenario_A_targets 3 = Inr ps"
    and 1: "length ps = min (nat 3) (length scenario_A_targets)"
    and 2: "\<forall>p\<in>set ps. p \<noteq> []"
    and 3: "concat ps = scenario_A_targets"
    and 4: "\<forall>q r. length scenario_A_targets = q * nat 3 + r \<and> r < nat 3 \<longrightarrow>
                 (\<forall>i<length ps. length (ps ! i) = (if i < r then q + 1 else q))"
    by blast
  from ps ev have eq: "ps = scenario_A_partitions" by simp
  from 2 have nonempty: "[] \<notin> set ps" by blast
  from 4 qr have 5: "\<forall>i<length ps. length (ps ! i) = (if i < 1 then 3 + 1 else 3)"
    by blast
  have l: "length ps = 3" using 1 by (simp add: scenario_A_targets_def)
  from 5 l have 6: "length (ps ! 0) = 3 + 1" "length (ps ! 1) = 3" "length (ps ! 2) = 3"
    by simp_all
  have e: "chunk_into_n ([]::string list) 3 = Inr []"
    using chunk_into_n_partition [OF pos, THEN conjunct1, of "[]::string list"] by simp
  from pos ne ev 1 nonempty 3 qr 6 e show ?thesis
    unfolding eq by blast
qed

section \<open>Errors that end the run\<close>

lemma setup_eq:
  "setup_test_environment w commit team tr =
     (if \<not> starts w (length tr) then Inl OSError
      else if exit_code w (length tr) \<noteq> 0 then Inl (CalledProcessError (exit_code w (length tr)))
      else Inr (),
      tr @ [CheckCall (setup_test_environment_argv commit team) [(''DOCKER_BUILDKIT'', ''1'')]])"
  by (simp add: setup_test_environment_def check_call_def)

text \<open>
  A comprehension over a body that makes one \<^verbatim>\<open>Popen\<close> call: when the call for element
  \<open>i\<close> is the first that raises, and when none raises.
\<close>

lemma for_each_popen_fails:
  assumes f: "\<And>x tr. f x tr =
                (if starts w (length tr) then Inr (length tr) else Inl OSError, tr @ [Popen (g x)])"
    and "i < length xs" "\<not> starts w (length tr + i)" "\<forall>j<i. starts w (length tr + j)"
  shows "for_each f xs tr = (Inl OSError, tr @ map (\<lambda>x. Popen (g x)) (take (Suc i) xs))"
  using assms(2-)
proof (induction xs arbitrary: i tr)
  case Nil
  then show ?case by simp
next
  case (Cons c cs)
  show ?case
  proof (cases i)
    case 0
    with Cons.prems show ?thesis by (simp add: f)
  next
    case (Suc i')
    let ?tr1 = "tr @ [Popen (g c)]"
    from Cons.prems Suc have s0: "starts w (length tr)" by auto
    have a: "i' < length cs" using Cons.prems Suc by simp
    have b: "\<not> starts w (length ?tr1 + i')" using Cons.prems Suc by simp
    have c: "\<forall>j<i'. starts w (length ?tr1 + j)"
    proof (intro allI impI)
      fix j assume "j < i'"
      then have "Suc j < i" using Suc by simp
      with Cons.prems have "starts w (length tr + Suc j)" by blast
      then show "starts w (length ?tr1 + j)" by simp
    qed
    have "f c tr = (Inr (length tr), ?tr1)" using s0 by (simp add: f)
    with Cons.IH [OF a b c] Suc show ?thesis by simp
  qed
qed

lemma for_each_popen_ok:
  assumes f: "\<And>x tr. f x tr =
                (if starts w (length tr) then Inr (length tr) else Inl OSError, tr @ [Popen (g x)])"
    and "\<forall>j<length xs. starts w (length tr + j)"
  shows "for_each f xs tr =
           (Inr (map (\<lambda>j. length tr + j) [0..<length xs]), tr @ map (\<lambda>x. Popen (g x)) xs)"
  using assms(2)
proof (induction xs arbitrary: tr)
  case Nil
  then show ?case by simp
next
  case (Cons c cs)
  let ?tr1 = "tr @ [Popen (g c)]"
  from Cons.prems have s0: "starts w (length tr)" by auto
  have "\<forall>j<length cs. starts w (length ?tr1 + j)"
  proof (intro allI impI)
    fix j assume "j < length cs"
    then have "Suc j < length (c # cs)" by simp
    with Cons.prems have "starts w (length tr + Suc j)" by blast
    then show "starts w (length ?tr1 + j)" by simp
  qed
  from Cons.IH [OF this]
  have rest: "for_each f cs ?tr1 =
     (Inr (map (\<lambda>j. length ?tr1 + j) [0..<length cs]), ?tr1 @ map (\<lambda>x. Popen (g x)) cs)" .
  have head: "f c tr = (Inr (length tr), ?tr1)" using s0 by (simp add: f)
  have idx: "map (\<lambda>j. length tr + j) [0..<length (c # cs)]
               = length tr # map (\<lambda>j. length ?tr1 + j) [0..<length cs]"
  proof -
    have "[0..<length (c # cs)] = 0 # map Suc [0..<length cs]"
      by (simp only: list.size map_Suc_upt) (simp add: upt_conv_Cons del: upt_Suc)
    then show ?thesis by (simp del: upt_Suc add: comp_def)
  qed
  show ?case
    by (simp only: for_each.simps head idx) (simp add: rest)
qed


text \<open>
  Claim C3, as stated, fails: in the world where the second launch raises, the run of
  three partitions ends with the error instead of a verdict, the third partition is never
  launched, and the handle of the first is never waited on.
\<close>

theorem launch_error_counterexample:
  "container_run_tests world_launch_fails (Some ''abc'') ''core'' [''//a'', ''//b'', ''//c''] 3 []
     = (Inl OSError,
        [CheckCall (setup_test_environment_argv (Some ''abc'') ''core'') [(''DOCKER_BUILDKIT'', ''1'')],
         Popen (docker_run_bash_script (Some ''abc'') (container_test_command [''//a''])),
         Popen (docker_run_bash_script (Some ''abc'') (container_test_command [''//b'']))])"
  by code_simp

text \<open>
  Claim C3, amended. When the build succeeded and the launch of partition \<open>i\<close> is the
  first that raises, \<^verbatim>\<open>container.run_tests\<close> ends with that error: the partitions after
  \<open>i\<close> are not launched, and no handle is waited on.
\<close>

theorem launch_error_propagates:
  assumes "chunk_into_n targets n = Inr chunks"
    and "starts w 0" "exit_code w 0 = 0"
    and "i < length chunks" "\<not> starts w (Suc i)" "\<forall>j<i. starts w (Suc j)"
  shows "container_run_tests w commit team targets n [] =
           (Inl OSError,
            CheckCall (setup_test_environment_argv commit team) [(''DOCKER_BUILDKIT'', ''1'')]
            # map (\<lambda>c. Popen (docker_run_bash_script commit (container_test_command c)))
                (take (Suc i) chunks))
         \<and> waited (snd (container_run_tests w commit team targets n [])) = []"
proof -
  let ?c = "CheckCall (setup_test_environment_argv commit team) [(''DOCKER_BUILDKIT'', ''1'')]"
  let ?g = "\<lambda>c. docker_run_bash_script commit (container_test_command c)"
  have a: "\<not> starts w (length [?c] + i)" using assms(5) by simp
  have b: "\<forall>j<i. starts w (length [?c] + j)" using assms(6) by simp
  have fe: "for_each (container_run_tests_in_docker w commit) chunks [?c] =
          (Inl OSError, [?c] @ map (\<lambda>x. Popen (?g x)) (take (Suc i) chunks))"
    by (rule for_each_popen_fails [OF container_launch assms(4) a b])
  have run: "container_run_tests w commit team targets n [] =
           (Inl OSError, ?c # map (\<lambda>x. Popen (?g x)) (take (Suc i) chunks))"
    using assms(1-3) fe by (simp add: container_run_tests_def setup_eq)
  have "\<forall>e\<in>set (?c # map (\<lambda>x. Popen (?g x)) (take (Suc i) chunks)). \<not> is_Wait e"
    by auto
  then have "waited (?c # map (\<lambda>x. Popen (?g x)) (take (Suc i) chunks)) = []"
    by (rule waited_no_Wait)
  with run show ?thesis by simp
qed

theorem launch_error_propagates_witness:
  "chunk_into_n [''//a'', ''//b'', ''//c''] 3 = Inr [[''//a''], [''//b''], [''//c'']]
   \<and> starts world_launch_fails 0 \<and> exit_code world_launch_fails 0 = 0
   \<and> 1 < length [[''//a''], [''//b''], [''//c'']]
   \<and> \<not> starts world_launch_fails (Suc 1) \<and> starts world_launch_fails (Suc 0)
   \<and> container_run_tests world_launch_fails (Some ''abc'') ''core'' [''//a'', ''//b'', ''//c''] 3 [] =
           (Inl OSError,
            CheckCall (setup_test_environment_argv (Some ''abc'') ''core'') [(''DOCKER_BUILDKIT'', ''1'')]
            # map (\<lambda>c. Popen (docker_run_bash_script (Some ''abc'') (container_test_command c)))
                (take (Suc 1) [[''//a''], [''//b''], [''//c'']]))
   \<and> waited (snd (container_run_tests world_launch_fails (Some ''abc'') ''core''
                    [''//a'', ''//b'', ''//c''] 3 [])) = []"
proof -
  have 1: "chunk_into_n [''//a'', ''//b'', ''//c''] 3 = Inr [[''//a''], [''//b''], [''//c'']]"
    by code_simp
  have 2: "starts world_launch_fails 0" and 3: "exit_code world_launch_fails 0 = 0"
    by (simp_all add: world_launch_fails_def)
  have 4: "1 < length [[''//a''], [''//b''], [''//c'']]" by simp
  have 5: "\<not> starts world_launch_fails (Suc 1)" by (simp add: world_launch_fails_def)
  have 6: "starts world_launch_fails (Suc 0)" by (simp add: world_launch_fails_def)
  then have 7: "\<forall>j<1. starts world_launch_fails (Suc j)" by simp
  note r = launch_error_propagates [OF 1 2 3 4 5 7, of "Some ''abc''" "''core''"]
  show ?thesis
    by (intro conjI) (fact 1 2 3 4 5 6 r [THEN conjunct1] r [THEN conjunct2])+
qed

text \<open>
  Claim C5. When the image build exits non-zero, \<^verbatim>\<open>container.run_tests\<close> ends with
  \<^verbatim>\<open>CalledProcessError\<close>, and the build is the only subprocess call made: no container is
  launched.
\<close>

theorem build_failure_aborts:
  assumes "chunk_into_n targets n = Inr chunks"
    and "starts w 0" "exit_code w 0 \<noteq> 0"
  shows "container_run_tests w commit team targets n [] =
           (Inl (CalledProcessError (exit_code w 0)),
            [CheckCall (setup_test_environment_argv commit team) [(''DOCKER_BUILDKIT'', ''1'')]])
         \<and> popen_from 0 (snd (container_run_tests w commit team targets n [])) = []"
  using assms by (simp add: container_run_tests_def setup_eq)

theorem build_failure_aborts_witness:
  "chunk_into_n [''//a'', ''//b'', ''//c''] 3 = Inr [[''//a''], [''//b''], [''//c'']]
   \<and> starts world_build_fails 0 \<and> exit_code world_build_fails 0 \<noteq> 0
   \<and> container_run_tests world_build_fails (Some ''abc'') ''core'' [''//a'', ''//b'', ''//c''] 3 [] =
           (Inl (CalledProcessError (exit_code world_build_fails 0)),
            [CheckCall (setup_test_environment_argv (Some ''abc'') ''core'') [(''DOCKER_BUILDKIT'', ''1'')]])
   \<and> popen_from 0 (snd (container_run_tests world_build_fails (Some ''abc'') ''core''
                         [''//a'', ''//b'', ''//c''] 3 [])) = []"
proof -
  have 1: "chunk_into_n [''//a'', ''//b'', ''//c''] 3 = Inr [[''//a''], [''//b''], [''//c'']]"
    by code_simp
  have 2: "starts world_build_fails 0" and 3: "exit_code world_build_fails 0 \<noteq> 0"
    by (simp_all add: world_build_fails_def)
  note r = build_failure_aborts [OF 1 2 3, of "Some ''abc''" "''core''"]
  show ?thesis
    by (intro conjI) (fact 1 2 3 r [THEN conjunct1] r [THEN conjunct2])+
qed

text \<open>
  Claim C6. With a parallelism \<open>n \<le> 0\<close> both \<^verbatim>\<open>run_tests\<close> end with ConfigError before
  any subprocess call: no build, no launch.
\<close>

theorem nonpositive_parallelism_fails_fast:
  "n \<le> 0 \<Longrightarrow>
     container_run_tests w commit team targets n [] = (Inl ConfigError, [])
   \<and> docker_run_tests w commit targets pre n [] = (Inl ConfigError, [])"
  by (simp add: container_run_tests_def docker_run_tests_def chunk_into_n_def)

theorem nonpositive_parallelism_fails_fast_witness:
  "(0::int) \<le> 0
   \<and> container_run_tests world_all_pass (Some ''abc'') ''core'' [''//a'', ''//b'', ''//c''] 0 []
        = (Inl ConfigError, [])
   \<and> docker_run_tests world_all_pass (Some ''abc'') [''//a'', ''//b'', ''//c''] [''export CI=1''] 0 []
        = (Inl ConfigError, [])"
proof -
  have 1: "(0::int) \<le> 0" by simp
  note r = nonpositive_parallelism_fails_fast [OF 1, of world_all_pass "Some ''abc''" "''core''"
      "[''//a'', ''//b'', ''//c'']" "[''export CI=1'']"]
  show ?thesis
    by (intro conjI) (fact 1 r [THEN conjunct1] r [THEN conjunct2])+
qed

section \<open>The image and the command line\<close>

lemma container_trace_events:
  assumes c: "Q (CheckCall (setup_test_environment_argv commit team) [(''DOCKER_BUILDKIT'', ''1'')])"
    and p: "\<And>x. Q (Popen (docker_run_bash_script commit (container_test_command x)))"
    and wt: "\<And>h. Q (Wait h)"
  shows "\<forall>e\<in>set (snd (container_run_tests w commit team targets n [])). Q e"
proof (cases "chunk_into_n targets n")
  case (Inl e)
  then show ?thesis by (simp add: container_run_tests_def)
next
  case (Inr chunks)
  let ?c = "CheckCall (setup_test_environment_argv commit team) [(''DOCKER_BUILDKIT'', ''1'')]"
  obtain r2 tr2 where fe: "for_each (container_run_tests_in_docker w commit) chunks [?c] = (r2, tr2)"
    by (cases "for_each (container_run_tests_in_docker w commit) chunks [?c]")
  have "\<exists>ev. tr2 = [?c] @ ev \<and> (\<forall>e\<in>set ev. Q e)"
  proof (rule for_each_events [OF _ fe])
    fix x tr r tr'
    assume "container_run_tests_in_docker w commit x tr = (r, tr')"
    then have "tr' = tr @ [Popen (docker_run_bash_script commit (container_test_command x))]"
      by (simp add: container_launch)
    with p show "\<exists>ev. tr' = tr @ ev \<and> (\<forall>e\<in>set ev. Q e)" by simp
  qed
  with c have tr2: "\<forall>e\<in>set tr2. Q e" by auto
  show ?thesis
  proof (cases "starts w 0 \<and> exit_code w 0 = 0")
    case False
    with Inr c show ?thesis
      by (auto simp: container_run_tests_def setup_eq)
  next
    case True
    show ?thesis
    proof (cases r2)
      case (Inl e)
      with Inr True fe tr2 show ?thesis
        by (simp add: container_run_tests_def setup_eq)
    next
      case r: (Inr hs)
      with Inr True fe have "snd (container_run_tests w commit team targets n []) = tr2 @ map Wait hs"
        by (simp add: container_run_tests_def setup_eq wait_all_eq)
      with tr2 wt show ?thesis by auto
    qed
  qed
qed

lemma docker_trace_events:
  assumes q: "Q (CheckOutput (get_docker_run_command commit
                   @ [''/bin/bash'', ''-ic'', ''./ci/run/bazel_export_options'']))"
    and p: "\<And>x opts. Q (Popen (get_docker_run_command commit
                   @ [''/bin/bash'', ''-ic'', docker_test_command x pre opts]))"
    and wt: "\<And>h. Q (Wait h)"
  shows "\<forall>e\<in>set (snd (docker_run_tests w commit targets pre n [])). Q e"
proof (cases "chunk_into_n targets n")
  case (Inl e)
  then show ?thesis by (simp add: docker_run_tests_def)
next
  case (Inr chunks)
  let ?f = "\<lambda>chunk. docker_run_tests_in_docker w commit chunk pre"
  obtain r2 tr2 where fe: "for_each ?f chunks [] = (r2, tr2)"
    by (cases "for_each ?f chunks []")
  have "\<exists>ev. tr2 = [] @ ev \<and> (\<forall>e\<in>set ev. Q e)"
  proof (rule for_each_events [OF _ fe])
    fix x tr r tr'
    assume "docker_run_tests_in_docker w commit x pre tr = (r, tr')"
    with q p show "\<exists>ev. tr' = tr @ ev \<and> (\<forall>e\<in>set ev. Q e)"
      by (auto simp: docker_launch Let_def split: if_splits)
  qed
  then have tr2: "\<forall>e\<in>set tr2. Q e" by auto
  show ?thesis
  proof (cases r2)
    case (Inl e)
    with Inr fe tr2 show ?thesis by (simp add: docker_run_tests_def)
  next
    case r: (Inr hs)
    with Inr fe have "snd (docker_run_tests w commit targets pre n []) = tr2 @ map Wait hs"
      by (simp add: docker_run_tests_def wait_all_eq)
    with tr2 wt show ?thesis by auto
  qed
qed

lemma build_tag_setup:
  "build_tag (setup_test_environment_argv commit team) = Some (get_docker_image commit)"
  by (simp add: setup_test_environment_argv_def)

lemma run_image_run_command:
  "run_image (get_docker_run_command commit @ rest) = Some (get_docker_image commit)"
  by (simp add: get_docker_run_command_def)

text \<open>
  Claim C8. The image reference is the registry host, the repository and the tag
  \<^verbatim>\<open>oss-ci-build_\<close> followed by the commit; in every run of either \<^verbatim>\<open>run_tests\<close>, the
  image the build tags and the image every container is started with are that reference.
\<close>

theorem image_identity:
  "get_docker_image commit =
     ''029272617770.dkr.ecr.us-west-2.amazonaws.com/ci_base_images:oss-ci-build_''
       @ (case commit of None \<Rightarrow> ''None'' | Some c \<Rightarrow> c)
   \<and> (\<forall>e\<in>set (snd (container_run_tests w commit team targets n [])).
        \<not> is_Wait e \<longrightarrow> event_image e = Some (get_docker_image commit))
   \<and> (\<forall>e\<in>set (snd (docker_run_tests w commit targets pre n [])).
        \<not> is_Wait e \<longrightarrow> event_image e = Some (get_docker_image commit))"
proof (intro conjI)
  show "get_docker_image commit =
     ''029272617770.dkr.ecr.us-west-2.amazonaws.com/ci_base_images:oss-ci-build_''
       @ (case commit of None \<Rightarrow> ''None'' | Some c \<Rightarrow> c)"
    by (simp add: get_docker_image_def DOCKER_ECR_def DOCKER_REPO_def DOCKER_TAG_def)
  show "\<forall>e\<in>set (snd (container_run_tests w commit team targets n [])).
        \<not> is_Wait e \<longrightarrow> event_image e = Some (get_docker_image commit)"
    by (rule container_trace_events)
      (simp_all add: build_tag_setup docker_run_bash_script_def run_image_run_command)
  show "\<forall>e\<in>set (snd (docker_run_tests w commit targets pre n [])).
        \<not> is_Wait e \<longrightarrow> event_image e = Some (get_docker_image commit)"
    by (rule docker_trace_events) (simp_all add: run_image_run_command)
qed


theorem image_identity_witness:
  "get_docker_image (Some ''abc'') =
     ''029272617770.dkr.ecr.us-west-2.amazonaws.com/ci_base_images:oss-ci-build_'' @ ''abc''
   \<and> CheckCall (setup_test_environment_argv (Some ''abc'') ''core'') [(''DOCKER_BUILDKIT'', ''1'')]
        \<in> set (snd container_run_B)
   \<and> event_image (CheckCall (setup_test_environment_argv (Some ''abc'') ''core'')
        [(''DOCKER_BUILDKIT'', ''1'')]) = Some (get_docker_image (Some ''abc''))
   \<and> Popen (docker_run_bash_script (Some ''abc'') (container_test_command [''//b'']))
        \<in> set (snd container_run_B)
   \<and> event_image (Popen (docker_run_bash_script (Some ''abc'') (container_test_command [''//b''])))
        = Some (get_docker_image (Some ''abc''))
   \<and> Popen (get_docker_run_command (Some ''abc'') @ [''/bin/bash'', ''-ic'',
          docker_test_command [''//c''] [''export CI=1''] [''--jobs=4'', ''--keep_going'']])
        \<in> set (snd docker_run_B)
   \<and> event_image (Popen (get_docker_run_command (Some ''abc'') @ [''/bin/bash'', ''-ic'',
          docker_test_command [''//c''] [''export CI=1''] [''--jobs=4'', ''--keep_going'']]))
        = Some (get_docker_image (Some ''abc''))"
proof -
  let ?b = "CheckCall (setup_test_environment_argv (Some ''abc'') ''core'') [(''DOCKER_BUILDKIT'', ''1'')]"
  let ?p = "Popen (docker_run_bash_script (Some ''abc'') (container_test_command [''//b'']))"
  let ?d = "Popen (get_docker_run_command (Some ''abc'') @ [''/bin/bash'', ''-ic'',
          docker_test_command [''//c''] [''export CI=1''] [''--jobs=4'', ''--keep_going'']])"
  have 0: "get_docker_image (Some ''abc'') =
     ''029272617770.dkr.ecr.us-west-2.amazonaws.com/ci_base_images:oss-ci-build_'' @ ''abc''"
    using image_identity [THEN conjunct1, of "Some ''abc''"] by simp
  have m1: "?b \<in> set (snd container_run_B)" by code_simp
  have m2: "?p \<in> set (snd container_run_B)" by code_simp
  have m3: "?d \<in> set (snd docker_run_B)" by code_simp
  have nb: "\<not> is_Wait ?b" and np: "\<not> is_Wait ?p" and nd: "\<not> is_Wait ?d" by simp_all
  note c = image_identity [THEN conjunct2, THEN conjunct1, THEN bspec, THEN mp]
  note d = image_identity [THEN conjunct2, THEN conjunct2, THEN bspec, THEN mp]
  have ib: "event_image ?b = Some (get_docker_image (Some ''abc''))"
    by (rule c [OF m1 [unfolded container_run_B_def] nb])
  have ip: "event_image ?p = Some (get_docker_image (Some ''abc''))"
    by (rule c [OF m2 [unfolded container_run_B_def] np])
  have id: "event_image ?d = Some (get_docker_image (Some ''abc''))"
    by (rule d [OF m3 [unfolded docker_run_B_def] nd])
  show ?thesis
    by (intro conjI) (fact 0 m1 ib m2 ip m3 id)+
qed

lemma str_join_Cons: "str_join sep (x # xs) = x @ concat (map (\<lambda>y. sep @ y) xs)"
  by (induction xs arbitrary: x) simp_all

lemma str_join_snoc: "str_join sep (xs @ [y]) = concat (map (\<lambda>x. x @ sep) xs) @ y"
proof (induction xs)
  case Nil
  show ?case by simp
next
  case (Cons x xs)
  then show ?case by (cases xs) simp_all
qed

lemma docker_test_command_eq:
  "docker_test_command targets pre opts =
     concat (map (\<lambda>c. c @ [CHR 0x0A]) pre) @ ''bazel test --config=ci''
       @ concat (map (\<lambda>t. '' '' @ t) (targets @ opts))"
  by (simp add: docker_test_command_def str_join_snoc str_join_Cons)

text \<open>
  Claim C7. When the options query succeeds and the launch starts, the Group Runner of
  \<^verbatim>\<open>docker.py\<close> starts one process, \<^verbatim>\<open>docker run -i --rm --workdir /ray --shm-size=2.5gb\<close>
  on the image with \<^verbatim>\<open>/bin/bash -ic\<close> and one command string: the pre-run commands in
  order, each followed by a newline, then one \<^verbatim>\<open>bazel test --config=ci\<close> invocation that
  lists every target of the partition (and then the queried options), separated by spaces.
\<close>

theorem group_runner_command:
  assumes "starts w (length tr)" "exit_code w (length tr) = 0" "utf8_valid (stdout w (length tr))"
    and "starts w (Suc (length tr))"
  shows "docker_run_tests_in_docker w commit targets pre tr =
           (Inr (Suc (length tr)),
            tr @ [CheckOutput
                    [''docker'', ''run'', ''-i'', ''--rm'', ''--workdir'', ''/ray'',
                     ''--shm-size=2.5gb'', get_docker_image commit,
                     ''/bin/bash'', ''-ic'', ''./ci/run/bazel_export_options''],
                  Popen
                    [''docker'', ''run'', ''-i'', ''--rm'', ''--workdir'', ''/ray'',
                     ''--shm-size=2.5gb'', get_docker_image commit,
                     ''/bin/bash'', ''-ic'',
                     concat (map (\<lambda>c. c @ [CHR 0x0A]) pre) @ ''bazel test --config=ci''
                       @ concat (map (\<lambda>t. '' '' @ t)
                           (targets @ str_split (stdout w (length tr))))]])"
  using assms
  by (simp add: docker_launch Let_def docker_test_command_eq get_docker_run_command_def)

theorem group_runner_command_witness:
  "starts world_all_pass (length ([]::event list)) \<and> exit_code world_all_pass (length ([]::event list)) = 0
   \<and> utf8_valid (stdout world_all_pass (length ([]::event list)))
   \<and> starts world_all_pass (Suc (length ([]::event list)))
   \<and> docker_run_tests_in_docker world_all_pass (Some ''abc'') [''//a'', ''//b''] [''export CI=1'', ''cd /ray''] [] =
           (Inr (Suc (length ([]::event list))),
            [] @ [CheckOutput
                    [''docker'', ''run'', ''-i'', ''--rm'', ''--workdir'', ''/ray'',
                     ''--shm-size=2.5gb'', get_docker_image (Some ''abc''),
                     ''/bin/bash'', ''-ic'', ''./ci/run/bazel_export_options''],
                  Popen
                    [''docker'', ''run'', ''-i'', ''--rm'', ''--workdir'', ''/ray'',
                     ''--shm-size=2.5gb'', get_docker_image (Some ''abc''),
                     ''/bin/bash'', ''-ic'',
                     concat (map (\<lambda>c. c @ [CHR 0x0A]) [''export CI=1'', ''cd /ray''])
                       @ ''bazel test --config=ci''
                       @ concat (map (\<lambda>t. '' '' @ t)
                           ([''//a'', ''//b''] @ str_split (stdout world_all_pass (length ([]::event list)))))]])"
proof -
  have 1: "starts world_all_pass (length ([]::event list))"
    and 2: "exit_code world_all_pass (length ([]::event list)) = 0"
    and 4: "starts world_all_pass (Suc (length ([]::event list)))"
    by (simp_all add: world_all_pass_def)
  have 3: "utf8_valid (stdout world_all_pass (length ([]::event list)))"
    by code_simp
  note r = group_runner_command [OF 1 2 3 4, of "Some ''abc''" "[''//a'', ''//b'']"
      "[''export CI=1'', ''cd /ray'']"]
  show ?thesis
    by (intro conjI) (fact 1 2 3 4 r)+
qed

section \<open>run\_command\<close>

text \<open>
  The repository's own test, \<^verbatim>\<open>test_run_command\<close> of \<^verbatim>\<open>test_docker.py\<close>: the argument
  list that \<^verbatim>\<open>docker.run_command(["run", "command"])\<close> hands to \<^verbatim>\<open>check_output\<close>, joined
  by spaces, contains \<^verbatim>\<open>/bin/bash -ic run command\<close> (here: ends with it).
\<close>

lemma test_run_command:
  "fst (docker_run_command w commit [''run'', ''command''] tr) = Inr out \<Longrightarrow>
     \<exists>a. snd (docker_run_command w commit [''run'', ''command''] tr) = tr @ [CheckOutput a]
        \<and> (\<exists>before. str_join '' '' a = before @ ''/bin/bash -ic run command'')"
  by (simp add: docker_run_command_def check_output_def Let_def get_docker_run_command_def
      split: if_splits)

text \<open>
  Claim C10. \<^verbatim>\<open>run_command\<close> (either module) returns bytes exactly when the
  \<^verbatim>\<open>docker run\<close> process it starts exits with code 0, and the bytes are that process's
  captured stdout; when the process exits non-zero it raises \<^verbatim>\<open>CalledProcessError\<close>
  with that code.
\<close>

theorem run_command_checks_exit:
  "(container_run_command w commit script tr = (Inr out, tr') \<longleftrightarrow>
      starts w (length tr) \<and> exit_code w (length tr) = 0 \<and> out = stdout w (length tr)
      \<and> tr' = tr @ [CheckOutput (docker_run_bash_script commit script)])
   \<and> (starts w (length tr) \<and> exit_code w (length tr) \<noteq> 0 \<longrightarrow>
        fst (container_run_command w commit script tr)
          = Inl (CalledProcessError (exit_code w (length tr))))
   \<and> (docker_run_command w commit command tr = (Inr out, tr') \<longleftrightarrow>
      starts w (length tr) \<and> exit_code w (length tr) = 0 \<and> out = stdout w (length tr)
      \<and> tr' = tr @ [CheckOutput (get_docker_run_command commit
                       @ [''/bin/bash'', ''-ic'', str_join '' '' command])])
   \<and> (starts w (length tr) \<and> exit_code w (length tr) \<noteq> 0 \<longrightarrow>
        fst (docker_run_command w commit command tr)
          = Inl (CalledProcessError (exit_code w (length tr))))"
  by (auto simp: container_run_command_def docker_run_command_def check_output_def Let_def)

theorem run_command_checks_exit_witness:
  "starts world_build_fails (length ([]::event list))
   \<and> exit_code world_build_fails (length ([]::event list)) \<noteq> 0
   \<and> fst (container_run_command world_build_fails (Some ''abc'') ''echo hi'' [])
       = Inl (CalledProcessError (exit_code world_build_fails (length ([]::event list))))
   \<and> fst (docker_run_command world_build_fails (Some ''abc'') [''run'', ''command''] [])
       = Inl (CalledProcessError (exit_code world_build_fails (length ([]::event list))))
   \<and> starts world_all_pass (length ([]::event list))
   \<and> exit_code world_all_pass (length ([]::event list)) = 0
   \<and> container_run_command world_all_pass (Some ''abc'') ''echo hi'' []
       = (Inr (stdout world_all_pass (length ([]::event list))),
          [] @ [CheckOutput (docker_run_bash_script (Some ''abc'') ''echo hi'')])
   \<and> docker_run_command world_all_pass (Some ''abc'') [''run'', ''command''] []
       = (Inr (stdout world_all_pass (length ([]::event list))),
          [] @ [CheckOutput (get_docker_run_command (Some ''abc'')
                       @ [''/bin/bash'', ''-ic'', str_join '' '' [''run'', ''command'']])])"
proof -
  have 1: "starts world_build_fails (length ([]::event list))"
    and 2: "exit_code world_build_fails (length ([]::event list)) \<noteq> 0"
    by (simp_all add: world_build_fails_def)
  have 3: "starts world_all_pass (length ([]::event list))"
    and 4: "exit_code world_all_pass (length ([]::event list)) = 0"
    by (simp_all add: world_all_pass_def)
  note f1 = run_command_checks_exit [THEN conjunct2, THEN conjunct1, THEN mp, OF conjI, OF 1 2]
  note f2 = run_command_checks_exit [THEN conjunct2, THEN conjunct2, THEN conjunct2, THEN mp,
      OF conjI, OF 1 2]
  note g1 = run_command_checks_exit [THEN conjunct1, THEN iffD2, OF conjI, OF 3 conjI, OF 4 conjI,
      OF refl refl]
  note g2 = run_command_checks_exit [THEN conjunct2, THEN conjunct2, THEN conjunct1, THEN iffD2,
      OF conjI, OF 3 conjI, OF 4 conjI, OF refl refl]
  show ?thesis
    by (intro conjI) (fact 1 2 3 4 f1 f2 g1 g2)+
qed

section \<open>Fan-out, then fan-in\<close>






















end
